theory Spec2Isabelle
  imports Main
begin

section \<open>The domain: tasks and errors\<close>

text \<open>
  Two programs keep the search index in step with the task events: the poll-based
  indexer on Kafka and the subscribe-based indexer on Redis pub/sub. Each is a
  \<open>main\<close> package with a \<open>Server\<close>, its \<open>ListenAndServe\<close> and its \<open>Shutdown\<close>.
\<close>

text \<open>
  Modelled from the spec: the declarations of the domain package (\<open>Task\<close>, \<open>Dates\<close>,
  \<open>Priority\<close>, \<open>ErrorCode\<close>, \<open>WrapErrorf\<close>), which is not among the sources. The spec
  gives a task an id, a description, a priority, a start and a due timestamp and a
  completion flag; the field names are those the programs and the PostgreSQL
  repository use (\<open>ID\<close>, \<open>Description\<close>, \<open>Priority\<close>, \<open>Dates.Start\<close>, \<open>Dates.Due\<close>,
  \<open>IsDone\<close>). \<open>Priority\<close> is an integer type (the repository's tests build
  \<open>Priority(-1)\<close>); a timestamp is carried as the text of its instant. An \<open>error\<close>
  is one of the errors the programs meet: the context's, the JSON decoder's, a
  collaborator's failure, or one of these wrapped by \<open>WrapErrorf\<close>.
\<close>

datatype ErrorCode = ErrorCodeUnknown | ErrorCodeNotFound | ErrorCodeInvalidArgument

datatype error =
    DeadlineExceeded
  | SyntaxError
  | UnmarshalTypeError string string
  | Failure string
  | WrapErrorf error ErrorCode string

record Dates =
  Start :: string
  Due :: string

record Task =
  ID :: string
  Description :: string
  Priority :: int
  Dates :: Dates
  IsDone :: bool

section \<open>Calls on the collaborators\<close>

text \<open>
  The programs act on the world only through their collaborators: the broker, the
  search index behind \<open>s.task\<close> and the logger. The world is the list of the calls
  made so far, oldest first, and the state of everything outside the process, of which
  nothing is assumed: each collaborator answers from that state and may change it.
  A log call is recorded with its level and message, without its fields.
\<close>

datatype 'm call =
    CallPoll
  | CallCommitMessage 'm
  | CallIndex Task
  | CallDelete string
  | LogInfo string
  | LogError string

record ('m, 'x) world =
  calls :: "'m call list"
  outside :: 'x

definition record_call :: "'m call \<Rightarrow> ('m, 'x) world \<Rightarrow> ('m, 'x) world" where
  "record_call c w = w\<lparr>calls := calls w @ [c]\<rparr>"

definition perform ::
  "'m call \<Rightarrow> ('x \<Rightarrow> 'r \<times> 'x) \<Rightarrow> ('m, 'x) world \<Rightarrow> 'r \<times> ('m, 'x) world" where
  "perform c f w =
     (case f (outside w) of (r, x) \<Rightarrow> (r, w\<lparr>calls := calls w @ [c], outside := x\<rparr>))"

fun is_apply :: "'m call \<Rightarrow> bool" where
  "is_apply (CallIndex t) = True"
| "is_apply (CallDelete i) = True"
| "is_apply c = False"

fun is_commit :: "'m call \<Rightarrow> bool" where
  "is_commit (CallCommitMessage m) = True"
| "is_commit c = False"

fun is_poll :: "'m call \<Rightarrow> bool" where
  "is_poll CallPoll = True"
| "is_poll c = False"

definition applied :: "('m, 'x) world \<Rightarrow> 'm call list" where
  "applied w = filter is_apply (calls w)"

definition committed :: "('m, 'x) world \<Rightarrow> 'm call list" where
  "committed w = filter is_commit (calls w)"

definition polled :: "('m, 'x) world \<Rightarrow> 'm call list" where
  "polled w = filter is_poll (calls w)"

text \<open>\<open>s.task\<close>: the search index client, \<open>Index\<close> and \<open>Delete\<close> each returning an error or nil.\<close>

record 'x elasticsearch_Task =
  Index :: "Task \<Rightarrow> 'x \<Rightarrow> error option \<times> 'x"
  Delete :: "string \<Rightarrow> 'x \<Rightarrow> error option \<times> 'x"

record 'x Server =
  task :: "'x elasticsearch_Task"

section \<open>The poll-based indexer (Kafka)\<close>

record 'w Message =
  Partition :: int
  Offset :: int
  Value :: 'w

text \<open>The anonymous struct \<open>evt\<close> a message is decoded into.\<close>

record evt =
  Type :: string
  Value :: Task

text \<open>
  \<open>s.kafka.Consumer\<close>: \<open>Poll\<close> gives a message, or nothing when the poll timed out or
  gave an event that is not a \<open>*kafka.Message\<close> (the type assertion fails).
\<close>

record ('w, 'x) Consumer =
  Poll :: "'x \<Rightarrow> 'w Message option \<times> 'x"
  CommitMessage :: "'w Message \<Rightarrow> 'x \<Rightarrow> error option \<times> 'x"

text \<open>
  The server: its handles, and \<open>Decode\<close>, what the JSON decoder makes of a message's
  bytes for the target \<open>evt\<close> (the decoded struct, or the decoder's error).
\<close>

record ('w, 'x) KafkaServer = "'x Server" +
  kafka :: "('w, 'x) Consumer"
  Decode :: "'w \<Rightarrow> error + evt"

text \<open>The closure \<open>commit\<close> of \<open>ListenAndServe\<close>: a failed commit is logged, nothing else.\<close>

definition commit ::
  "('w, 'x) KafkaServer \<Rightarrow> 'w Message \<Rightarrow> ('w Message, 'x) world \<Rightarrow> ('w Message, 'x) world" where
  "commit s msg w =
     (case perform (CallCommitMessage msg) (CommitMessage (kafka s) msg) w of
        (Some err, w') \<Rightarrow> record_call (LogError ''commit failed'') w'
      | (None, w') \<Rightarrow> w')"

text \<open>The \<open>switch evt.Type\<close>, giving the flag \<open>ok\<close> it leaves.\<close>

definition dispatch ::
  "('w, 'x) KafkaServer \<Rightarrow> evt \<Rightarrow> ('w Message, 'x) world \<Rightarrow> bool \<times> ('w Message, 'x) world" where
  "dispatch s e w =
     (if Type e = ''tasks.event.updated'' \<or> Type e = ''tasks.event.created'' then
        (case perform (CallIndex (evt.Value e)) (Index (task s) (evt.Value e)) w of
           (err, w') \<Rightarrow> (err = None, w'))
      else if Type e = ''tasks.event.deleted'' then
        (case perform (CallDelete (ID (evt.Value e))) (Delete (task s) (ID (evt.Value e))) w of
           (err, w') \<Rightarrow> (err = None, w'))
      else (False, w))"

text \<open>What the loop does with a message it polled: decode, dispatch, commit when \<open>ok\<close>.\<close>

definition consume ::
  "('w, 'x) KafkaServer \<Rightarrow> 'w Message \<Rightarrow> ('w Message, 'x) world \<Rightarrow> ('w Message, 'x) world" where
  "consume s msg w =
     (case Decode s (Message.Value msg) of
        Inl err \<Rightarrow> commit s msg (record_call (LogInfo ''Ignoring message, invalid'') w)
      | Inr e \<Rightarrow>
          (case dispatch s e w of
             (ok, w') \<Rightarrow> if ok then commit s msg (record_call (LogInfo ''Consumed'') w') else w'))"

text \<open>The \<open>default\<close> branch of the loop's \<open>select\<close>: one poll and, with a message, its handling.\<close>

definition poll_once ::
  "('w, 'x) KafkaServer \<Rightarrow> ('w Message, 'x) world \<Rightarrow> ('w Message, 'x) world" where
  "poll_once s w =
     (case perform CallPoll (Poll (kafka s)) w of
        (None, w') \<Rightarrow> w'
      | (Some msg, w') \<Rightarrow> consume s msg w')"

text \<open>
  The process around the loop. \<open>ListenAndServe\<close> starts one goroutine, which runs
  \<open>for run { select { case <-s.closeC: ...; default: ... } }\<close>, logs, and sends on the
  unbuffered \<open>doneC\<close>. \<open>Shutdown\<close> logs, closes \<open>closeC\<close> and waits in a \<open>select\<close> for
  \<open>ctx.Done()\<close> or \<open>doneC\<close>. \<open>run\<close> calls each of them from a goroutine of its own, so
  their steps interleave; an interleaving is a list of events, each the next step of
  one goroutine or the passing of the deadline.
\<close>

datatype goroutine = NotStarted | Looping | Sending | Finished

datatype shutdown_call = NotCalled | Waiting | Returned "error option"

record ('w, 'x) process =
  closeC :: bool
  ctx :: "error option"
  loop :: goroutine
  shutdown :: shutdown_call
  panicked :: bool
  world :: "('w Message, 'x) world"

text \<open>
  \<open>closeC\<close> holds whether the channel is closed; \<open>ctx\<close> is \<open>ctx.Err()\<close>, nil until
  \<open>ctx.Done()\<close> is closed. The goroutine is \<open>Sending\<close> while it is blocked in
  \<open>s.doneC <- struct{}{}\<close>.
\<close>

definition start :: "('w Message, 'x) world \<Rightarrow> ('w, 'x) process" where
  "start w = \<lparr>closeC = False, ctx = None, loop = NotStarted, shutdown = NotCalled,
     panicked = False, world = w\<rparr>"

text \<open>
  One pass through the goroutine's \<open>for run\<close>: with \<open>closeC\<close> closed the \<open>select\<close> takes
  that case (\<open>default\<close> runs only when no other case is ready), the loop ends, the
  goroutine logs and blocks sending on \<open>doneC\<close>; otherwise it takes \<open>default\<close>.
\<close>

definition iteration :: "('w, 'x) KafkaServer \<Rightarrow> ('w, 'x) process \<Rightarrow> ('w, 'x) process" where
  "iteration s p =
     (if closeC p then
        p\<lparr>loop := Sending,
          world := record_call (LogInfo ''No more messages to consume. Exiting.'') (world p)\<rparr>
      else p\<lparr>world := poll_once s (world p)\<rparr>)"

text \<open>
  The head of \<open>Shutdown\<close>: the log line and \<open>close(s.closeC)\<close>. Closing a closed channel
  panics, which ends the process.
\<close>

definition Shutdown_close :: "('w, 'x) process \<Rightarrow> ('w, 'x) process" where
  "Shutdown_close p =
     (let q = p\<lparr>world := record_call (LogInfo ''Shutting down server'') (world p)\<rparr>
      in if closeC q then q\<lparr>panicked := True\<rparr> else q\<lparr>closeC := True, shutdown := Waiting\<rparr>)"

text \<open>
  The \<open>select\<close> of \<open>Shutdown\<close>, one case at a time: \<open>None\<close> when the case is not ready,
  otherwise what \<open>Shutdown\<close> returns. \<open>doneC\<close> is ready when the goroutine is blocked
  sending on it. With both ready Go takes either.
\<close>

datatype select_case = CtxDone | DoneC

definition Shutdown_select :: "error option \<Rightarrow> bool \<Rightarrow> select_case \<Rightarrow> error option option" where
  "Shutdown_select c sending branch =
     (case branch of
        CtxDone \<Rightarrow>
          (case c of
             None \<Rightarrow> None
           | Some err \<Rightarrow> Some (Some (WrapErrorf err ErrorCodeUnknown ''context.Done'')))
      | DoneC \<Rightarrow> if sending then Some None else None)"

datatype event = ListenAndServe | Iteration | Shutdown | Select select_case | Deadline

text \<open>
  The step an event makes, \<open>None\<close> when it cannot happen in that state. Nothing
  happens after a panic. One goroutine runs the loop, as in \<open>run\<close>.
\<close>

definition fire :: "('w, 'x) KafkaServer \<Rightarrow> event \<Rightarrow> ('w, 'x) process \<Rightarrow> ('w, 'x) process option" where
  "fire s e p =
     (if panicked p then None
      else case e of
        ListenAndServe \<Rightarrow> if loop p = NotStarted then Some (p\<lparr>loop := Looping\<rparr>) else None
      | Iteration \<Rightarrow> if loop p = Looping then Some (iteration s p) else None
      | Shutdown \<Rightarrow> Some (Shutdown_close p)
      | Select branch \<Rightarrow>
          (if shutdown p = Waiting then
             (case Shutdown_select (ctx p) (loop p = Sending) branch of
                None \<Rightarrow> None
              | Some r \<Rightarrow>
                  Some (p\<lparr>shutdown := Returned r,
                          loop := (if branch = DoneC then Finished else loop p)\<rparr>))
           else None)
      | Deadline \<Rightarrow> Some (if ctx p = None then p\<lparr>ctx := Some DeadlineExceeded\<rparr> else p))"

fun exec :: "('w, 'x) KafkaServer \<Rightarrow> event list \<Rightarrow> ('w, 'x) process \<Rightarrow> ('w, 'x) process option" where
  "exec s [] p = Some p"
| "exec s (e # es) p = (case fire s e p of None \<Rightarrow> None | Some q \<Rightarrow> exec s es q)"

section \<open>The subscribe-based indexer (Redis pub/sub)\<close>

record 'w redis_Message =
  Channel :: string
  Payload :: 'w

text \<open>
  The server: \<open>s.task\<close>, and what the JSON decoder makes of a payload for the targets
  \<open>internaldomain.Task\<close> and \<open>string\<close>. The program holds no operation that
  acknowledges a message or asks for it again.
\<close>

record ('w, 'x) RedisServer = "'x Server" +
  Decode_Task :: "'w \<Rightarrow> error + Task"
  Decode_string :: "'w \<Rightarrow> error + string"

text \<open>The body of \<open>for msg := range ch\<close>.\<close>

definition receive ::
  "('w, 'x) RedisServer \<Rightarrow> 'w redis_Message \<Rightarrow> ('w redis_Message, 'x) world
     \<Rightarrow> ('w redis_Message, 'x) world" where
  "receive s msg w0 =
     (let w = record_call (LogInfo (''Received message: %s'' @ Channel msg)) w0
      in if Channel msg = ''tasks.event.updated'' \<or> Channel msg = ''tasks.event.created'' then
           (case Decode_Task s (Payload msg) of
              Inl err \<Rightarrow> record_call (LogInfo ''Ignoring message, invalid'') w
            | Inr t \<Rightarrow>
                (case perform (CallIndex t) (Index (task s) t) w of
                   (Some err, w') \<Rightarrow> record_call (LogInfo ''Couldn't index task'') w'
                 | (None, w') \<Rightarrow> w'))
         else if Channel msg = ''tasks.event.deleted'' then
           (case Decode_string s (Payload msg) of
              Inl err \<Rightarrow> record_call (LogInfo ''Ignoring message, invalid'') w
            | Inr i \<Rightarrow>
                (case perform (CallDelete i) (Delete (task s) i) w of
                   (Some err, w') \<Rightarrow> record_call (LogInfo ''Couldn't delete task'') w'
                 | (None, w') \<Rightarrow> w'))
         else w)"

text \<open>
  The loop over the subscription's channel, given what the channel delivers before it
  is closed: each message is taken off the channel once, in order.
\<close>

fun range_ch ::
  "('w, 'x) RedisServer \<Rightarrow> 'w redis_Message list \<Rightarrow> ('w redis_Message, 'x) world
     \<Rightarrow> ('w redis_Message, 'x) world" where
  "range_ch s [] w = w"
| "range_ch s (msg # ch) w = range_ch s ch (receive s msg w)"

section \<open>JSON documents and the decoder\<close>

text \<open>
  \<open>Decoder.Decode\<close> reads the first JSON value off the bytes and nothing after
  it. The bytes of a message are held as that value, \<open>None\<close> when the bytes do not
  start with one. A number is held as its integer when the literal is an integer and as
  its text when it has a fraction or an exponent.

  Decoding into a Go value follows the rules of \<open>encoding/json\<close> for the targets at
  hand: a struct takes an object, member by member in the order of the text, matching
  keys to field names without regard to case and skipping unknown keys; a string field
  takes a string, a bool field a bool, an integer field an integer literal within the
  range of its type; \<open>null\<close> leaves the target as it is; a \<open>time.Time\<close> takes a string
  that its \<open>UnmarshalJSON\<close> can parse; any other pairing is an error. A decode that
  meets an error fails; the first error met stands for it.
\<close>

datatype json =
    JNull
  | JBool bool
  | JNumber int
  | JDecimal string
  | JString string
  | JArray "json list"
  | JObject "(string \<times> json) list"

fun kind :: "json \<Rightarrow> string" where
  "kind JNull = ''null''"
| "kind (JBool b) = ''bool''"
| "kind (JNumber n) = ''number''"
| "kind (JDecimal t) = ''number''"
| "kind (JString s) = ''string''"
| "kind (JArray vs) = ''array''"
| "kind (JObject kvs) = ''object''"

text \<open>
  Two leaf types of \<open>Task\<close> are declared outside the sources, and the decoder takes
  what it needs of them as parameters: what \<open>time.Time\<close>'s \<open>UnmarshalJSON\<close> makes of the
  text of a timestamp (the instant, or nothing when the text does not parse), and
  which integers the type \<open>Priority\<close> can hold.
\<close>

record leaves =
  parse_Time :: "string \<Rightarrow> string option"
  Priority_holds :: "int \<Rightarrow> bool"

text \<open>An upper-case ASCII letter (codes 65 to 90) becomes lower case by setting the bit 32.\<close>

definition lower :: "char \<Rightarrow> char" where
  "lower c =
     (if (65::nat) \<le> of_char c \<and> of_char c \<le> (90::nat) then
        (case c of Char b0 b1 b2 b3 b4 b5 b6 b7 \<Rightarrow> Char b0 b1 b2 b3 b4 True b6 b7)
      else c)"

text \<open>
  Case folding of a key, on its UTF-8 bytes: besides the ASCII letters, the Kelvin sign
  U+212A (bytes E2 84 AA) folds to \<open>k\<close> and the long s U+017F (bytes C5 BF) to \<open>s\<close>;
  no other character folds to an ASCII letter, and the field names are ASCII.
\<close>

fun foldName :: "string \<Rightarrow> string" where
  "foldName [] = []"
| "foldName (c # cs) =
     (if c = CHR 0xE2 \<and> take 2 cs = [CHR 0x84, CHR 0xAA] then CHR ''k'' # foldName (drop 2 cs)
      else if c = CHR 0xC5 \<and> take 1 cs = [CHR 0xBF] then CHR ''s'' # foldName (drop 1 cs)
      else lower c # foldName cs)"

definition EqualFold :: "string \<Rightarrow> string \<Rightarrow> bool" where
  "EqualFold a b = (foldName a = foldName b)"

definition into_string :: "string \<Rightarrow> json \<Rightarrow> string \<Rightarrow> error + string" where
  "into_string ty v old =
     (case v of JString x \<Rightarrow> Inr x | JNull \<Rightarrow> Inr old | _ \<Rightarrow> Inl (UnmarshalTypeError (kind v) ty))"

definition into_bool :: "string \<Rightarrow> json \<Rightarrow> bool \<Rightarrow> error + bool" where
  "into_bool ty v old =
     (case v of JBool x \<Rightarrow> Inr x | JNull \<Rightarrow> Inr old | _ \<Rightarrow> Inl (UnmarshalTypeError (kind v) ty))"

definition into_int :: "(int \<Rightarrow> bool) \<Rightarrow> string \<Rightarrow> json \<Rightarrow> int \<Rightarrow> error + int" where
  "into_int holds ty v old =
     (case v of
        JNumber x \<Rightarrow> if holds x then Inr x else Inl (UnmarshalTypeError (kind v) ty)
      | JNull \<Rightarrow> Inr old
      | _ \<Rightarrow> Inl (UnmarshalTypeError (kind v) ty))"

definition into_Time :: "(string \<Rightarrow> string option) \<Rightarrow> json \<Rightarrow> string \<Rightarrow> error + string" where
  "into_Time parse v old =
     (case v of
        JString x \<Rightarrow>
          (case parse x of
             None \<Rightarrow> Inl (Failure ''parsing time'')
           | Some t \<Rightarrow> Inr t)
      | JNull \<Rightarrow> Inr old
      | _ \<Rightarrow> Inl (Failure ''Time.UnmarshalJSON: input is not a JSON string''))"

fun members ::
  "('a \<Rightarrow> string \<Rightarrow> json \<Rightarrow> error + 'a) \<Rightarrow> (string \<times> json) list \<Rightarrow> 'a \<Rightarrow> error + 'a" where
  "members f [] a = Inr a"
| "members f ((k, v) # kvs) a = (case f a k v of Inl err \<Rightarrow> Inl err | Inr b \<Rightarrow> members f kvs b)"

definition into_struct ::
  "string \<Rightarrow> ('a \<Rightarrow> string \<Rightarrow> json \<Rightarrow> error + 'a) \<Rightarrow> json \<Rightarrow> 'a \<Rightarrow> error + 'a" where
  "into_struct ty f v old =
     (case v of
        JObject kvs \<Rightarrow> members f kvs old
      | JNull \<Rightarrow> Inr old
      | _ \<Rightarrow> Inl (UnmarshalTypeError (kind v) ty))"

definition store :: "error + 'b \<Rightarrow> ('b \<Rightarrow> 'a) \<Rightarrow> error + 'a" where
  "store r f = (case r of Inl err \<Rightarrow> Inl err | Inr x \<Rightarrow> Inr (f x))"

definition Dates_field :: "leaves \<Rightarrow> Dates \<Rightarrow> string \<Rightarrow> json \<Rightarrow> error + Dates" where
  "Dates_field lv d k v =
     (if EqualFold k ''Start'' then
        store (into_Time (parse_Time lv) v (Start d)) (\<lambda>x. d\<lparr>Start := x\<rparr>)
      else if EqualFold k ''Due'' then
        store (into_Time (parse_Time lv) v (Due d)) (\<lambda>x. d\<lparr>Due := x\<rparr>)
      else Inr d)"

definition Task_field :: "leaves \<Rightarrow> Task \<Rightarrow> string \<Rightarrow> json \<Rightarrow> error + Task" where
  "Task_field lv t k v =
     (if EqualFold k ''ID'' then store (into_string ''string'' v (ID t)) (\<lambda>x. t\<lparr>ID := x\<rparr>)
      else if EqualFold k ''Description'' then
        store (into_string ''string'' v (Description t)) (\<lambda>x. t\<lparr>Description := x\<rparr>)
      else if EqualFold k ''Priority'' then
        store (into_int (Priority_holds lv) ''internal.Priority'' v (Priority t))
          (\<lambda>x. t\<lparr>Priority := x\<rparr>)
      else if EqualFold k ''Dates'' then
        store (into_struct ''internal.Dates'' (Dates_field lv) v (Dates t)) (\<lambda>x. t\<lparr>Dates := x\<rparr>)
      else if EqualFold k ''IsDone'' then
        store (into_bool ''bool'' v (IsDone t)) (\<lambda>x. t\<lparr>IsDone := x\<rparr>)
      else Inr t)"

definition evt_field :: "leaves \<Rightarrow> evt \<Rightarrow> string \<Rightarrow> json \<Rightarrow> error + evt" where
  "evt_field lv e k v =
     (if EqualFold k ''Type'' then store (into_string ''string'' v (Type e)) (\<lambda>x. e\<lparr>Type := x\<rparr>)
      else if EqualFold k ''Value'' then
        store (into_struct ''internal.Task'' (Task_field lv) v (evt.Value e)) (\<lambda>x. e\<lparr>Value := x\<rparr>)
      else Inr e)"

text \<open>The zero values the targets are declared with (\<open>var evt struct ...\<close>, \<open>var task\<close>, \<open>var id\<close>).\<close>

definition zero_Task :: Task where
  "zero_Task = \<lparr>ID = [], Description = [], Priority = 0,
     Dates = \<lparr>Start = ''0001-01-01T00:00:00Z'', Due = ''0001-01-01T00:00:00Z''\<rparr>, IsDone = False\<rparr>"

definition zero_evt :: evt where
  "zero_evt = \<lparr>Type = [], Value = zero_Task\<rparr>"

definition json_evt :: "leaves \<Rightarrow> json option \<Rightarrow> error + evt" where
  "json_evt lv b =
     (case b of
        None \<Rightarrow> Inl SyntaxError
      | Some v \<Rightarrow> into_struct ''struct'' (evt_field lv) v zero_evt)"

definition json_Task :: "leaves \<Rightarrow> json option \<Rightarrow> error + Task" where
  "json_Task lv b =
     (case b of
        None \<Rightarrow> Inl SyntaxError
      | Some v \<Rightarrow> into_struct ''internal.Task'' (Task_field lv) v zero_Task)"

definition json_string :: "json option \<Rightarrow> error + string" where
  "json_string b = (case b of None \<Rightarrow> Inl SyntaxError | Some v \<Rightarrow> into_string ''string'' v [])"

section \<open>The search index\<close>

text \<open>
  Modelled from the spec: the Index Applier. The package \<open>elasticsearch\<close>, whose
  \<open>Task.Index\<close> and \<open>Task.Delete\<close> the programs call, is not among the sources. The
  spec gives \<open>Upsert(task)\<close> overwrite semantics on the entry of the task's id,
  \<open>Remove(id)\<close> that is no error on an absent id, and says an error of the search
  engine is passed to the caller.
\<close>

record SearchIndex =
  documents :: "string \<rightharpoonup> Task"
  outage :: "error option"

definition Upsert :: "Task \<Rightarrow> SearchIndex \<Rightarrow> error option \<times> SearchIndex" where
  "Upsert t i =
     (case outage i of
        Some err \<Rightarrow> (Some err, i)
      | None \<Rightarrow> (None, i\<lparr>documents := (documents i)(ID t \<mapsto> t)\<rparr>))"

definition Remove :: "string \<Rightarrow> SearchIndex \<Rightarrow> error option \<times> SearchIndex" where
  "Remove k i =
     (case outage i of
        Some err \<Rightarrow> (Some err, i)
      | None \<Rightarrow> (None, i\<lparr>documents := (documents i)(k := None)\<rparr>))"

section \<open>A broker and an index to run the programs on\<close>

text \<open>
  A broker that hands out a fixed queue of messages and accepts every commit, and the
  index above behind \<open>s.task\<close>, with the decoder of the previous section. For the
  leaves these runs take a \<open>Priority\<close> of eight bits and a reading of timestamps that
  accepts the form \<open>2006-01-02T15:04:05Z\<close>, kept as it is, and refuses every other
  text.
\<close>

definition is_digit :: "char \<Rightarrow> bool" where
  "is_digit c = ((48::nat) \<le> of_char c \<and> of_char c \<le> (57::nat))"

definition utc_seconds :: "string \<Rightarrow> string option" where
  "utc_seconds t =
     (if map (\<lambda>c. if is_digit c then CHR ''0'' else c) t = ''0000-00-00T00:00:00Z'' then Some t
      else None)"

definition run_leaves :: leaves where
  "run_leaves = \<lparr>parse_Time = utc_seconds, Priority_holds = (\<lambda>n. - 128 \<le> n \<and> n \<le> 127)\<rparr>"

record 'w broker =
  queue :: "'w Message list"
  search :: SearchIndex

definition broker_Poll :: "'w broker \<Rightarrow> 'w Message option \<times> 'w broker" where
  "broker_Poll b = (case queue b of [] \<Rightarrow> (None, b) | m # ms \<Rightarrow> (Some m, b\<lparr>queue := ms\<rparr>))"

definition broker_CommitMessage :: "'w Message \<Rightarrow> 'w broker \<Rightarrow> error option \<times> 'w broker" where
  "broker_CommitMessage m b = (None, b)"

definition on_search :: "(SearchIndex \<Rightarrow> 'r \<times> SearchIndex) \<Rightarrow> 'w broker \<Rightarrow> 'r \<times> 'w broker" where
  "on_search f b = (case f (search b) of (r, i) \<Rightarrow> (r, b\<lparr>search := i\<rparr>))"

definition kafka_indexer :: "(json option, json option broker) KafkaServer" where
  "kafka_indexer =
     \<lparr>task = \<lparr>Index = \<lambda>t. on_search (Upsert t), Delete = \<lambda>k. on_search (Remove k)\<rparr>,
      kafka = \<lparr>Poll = broker_Poll, CommitMessage = broker_CommitMessage\<rparr>,
      Decode = json_evt run_leaves\<rparr>"

definition redis_indexer :: "(json option, SearchIndex) RedisServer" where
  "redis_indexer =
     \<lparr>task = \<lparr>Index = Upsert, Delete = Remove\<rparr>,
      Decode_Task = json_Task run_leaves, Decode_string = json_string\<rparr>"

definition empty_index :: SearchIndex where
  "empty_index = \<lparr>documents = Map.empty, outage = None\<rparr>"

definition broken_index :: SearchIndex where
  "broken_index = \<lparr>documents = Map.empty, outage = Some (Failure ''search engine unreachable'')\<rparr>"

section \<open>Concrete messages\<close>

text \<open>
  The envelope \<open>{"Type": ty, "Value": v}\<close> as a document, a Kafka message carrying bytes
  at an offset, and a world in which nothing has been called yet.
\<close>

definition envelope :: "string \<Rightarrow> json \<Rightarrow> json option" where
  "envelope ty v = Some (JObject [(''Type'', JString ty), (''Value'', v)])"

definition message :: "int \<Rightarrow> 'w \<Rightarrow> 'w Message" where
  "message n b = \<lparr>Partition = 0, Offset = n, Value = b\<rparr>"

definition fresh :: "'x \<Rightarrow> ('m, 'x) world" where
  "fresh x = \<lparr>calls = [], outside = x\<rparr>"

definition task_abc :: json where
  "task_abc = JObject [(''ID'', JString ''abc''), (''Description'', JString ''buy milk'')]"

definition Task_abc :: Task where
  "Task_abc = zero_Task\<lparr>ID := ''abc'', Description := ''buy milk''\<rparr>"

definition created_abc :: "json option Message" where
  "created_abc = message 7 (envelope ''tasks.event.created'' task_abc)"

definition deleted_abc :: "json option Message" where
  "deleted_abc = message 8 (envelope ''tasks.event.deleted'' (JObject [(''ID'', JString ''abc'')]))"

definition deleted_bare :: "json option Message" where
  "deleted_bare = message 9 (envelope ''tasks.event.deleted'' (JString ''abc''))"

definition archived_abc :: "json option Message" where
  "archived_abc = message 10 (envelope ''tasks.event.archived'' task_abc)"

definition not_json :: "json option Message" where
  "not_json = message 11 None"

text \<open>A process whose loop is running, with the given messages waiting at the broker.\<close>

definition looping :: "'w Message list \<Rightarrow> SearchIndex \<Rightarrow> ('w, 'w broker) process" where
  "looping ms i = (start (fresh \<lparr>queue = ms, search = i\<rparr>))\<lparr>loop := Looping\<rparr>"

section \<open>A broker that keeps a ledger of acknowledgements\<close>

text \<open>
  Modelled from the spec: the broker's side of acknowledgement. The Kafka client is a
  collaborator outside the sources; the spec says that commit advances the consumer's
  durable position and so prevents redelivery, and that a message left unacknowledged
  remains redeliverable. This broker keeps the messages it still holds, those it has
  delivered and those whose commit it has accepted; while \<open>refusal\<close> is set it
  refuses every commit with that error and records nothing. A delivered message whose
  commit it has not accepted is redeliverable.
\<close>

record 'w ledger =
  pending :: "'w Message list"
  delivered :: "'w Message list"
  acknowledged :: "'w Message list"
  refusal :: "error option"
  engine :: SearchIndex

definition ledger_Poll :: "'w ledger \<Rightarrow> 'w Message option \<times> 'w ledger" where
  "ledger_Poll b =
     (case pending b of
        [] \<Rightarrow> (None, b)
      | m # ms \<Rightarrow> (Some m, b\<lparr>pending := ms, delivered := delivered b @ [m]\<rparr>))"

definition ledger_CommitMessage :: "'w Message \<Rightarrow> 'w ledger \<Rightarrow> error option \<times> 'w ledger" where
  "ledger_CommitMessage m b =
     (case refusal b of
        Some err \<Rightarrow> (Some err, b)
      | None \<Rightarrow> (None, b\<lparr>acknowledged := acknowledged b @ [m]\<rparr>))"

definition redeliverable :: "'w ledger \<Rightarrow> 'w Message list" where
  "redeliverable b = filter (\<lambda>m. m \<notin> set (acknowledged b)) (delivered b)"

definition on_engine :: "(SearchIndex \<Rightarrow> 'r \<times> SearchIndex) \<Rightarrow> 'w ledger \<Rightarrow> 'r \<times> 'w ledger" where
  "on_engine f b = (case f (engine b) of (r, i) \<Rightarrow> (r, b\<lparr>engine := i\<rparr>))"

definition ledger_indexer :: "(json option, json option ledger) KafkaServer" where
  "ledger_indexer =
     \<lparr>task = \<lparr>Index = \<lambda>t. on_engine (Upsert t), Delete = \<lambda>k. on_engine (Remove k)\<rparr>,
      kafka = \<lparr>Poll = ledger_Poll, CommitMessage = ledger_CommitMessage\<rparr>,
      Decode = json_evt run_leaves\<rparr>"

text \<open>
  The ledger with the given messages waiting, nothing delivered or acknowledged yet,
  and a process whose loop is running on it.
\<close>

definition ledger_of :: "'w Message list \<Rightarrow> SearchIndex \<Rightarrow> error option \<Rightarrow> 'w ledger" where
  "ledger_of ms i r =
     \<lparr>pending = ms, delivered = [], acknowledged = [], refusal = r, engine = i\<rparr>"

definition ledger_looping ::
  "'w Message list \<Rightarrow> SearchIndex \<Rightarrow> error option \<Rightarrow> ('w, 'w ledger) process" where
  "ledger_looping ms i r = (start (fresh (ledger_of ms i r)))\<lparr>loop := Looping\<rparr>"

definition index_of_abc :: SearchIndex where
  "index_of_abc = \<lparr>documents = [''abc'' \<mapsto> Task_abc], outage = None\<rparr>"

section \<open>Calls made by one pass of the poll-based loop\<close>

lemma calls_dispatch:
  "calls (snd (dispatch s e w)) = calls w @
     (if Type e = ''tasks.event.updated'' \<or> Type e = ''tasks.event.created''
      then [CallIndex (evt.Value e)]
      else if Type e = ''tasks.event.deleted'' then [CallDelete (ID (evt.Value e))] else [])"
  by (auto simp: dispatch_def perform_def split: prod.splits)

lemma ok_dispatch:
  "fst (dispatch s e w) =
     (if Type e = ''tasks.event.updated'' \<or> Type e = ''tasks.event.created''
      then fst (Index (task s) (evt.Value e) (outside w)) = None
      else if Type e = ''tasks.event.deleted''
      then fst (Delete (task s) (ID (evt.Value e)) (outside w)) = None else False)"
  by (auto simp: dispatch_def perform_def split: prod.splits)

lemma dispatch_unknown:
  "Type e \<noteq> ''tasks.event.updated'' \<Longrightarrow> Type e \<noteq> ''tasks.event.created'' \<Longrightarrow>
   Type e \<noteq> ''tasks.event.deleted'' \<Longrightarrow> dispatch s e w = (False, w)"
  by (simp add: dispatch_def)

lemma consume_decoded:
  "Decode s (Message.Value msg) = Inr e \<Longrightarrow>
   consume s msg w =
     (if fst (dispatch s e w)
      then commit s msg (record_call (LogInfo ''Consumed'') (snd (dispatch s e w)))
      else snd (dispatch s e w))"
  by (simp add: consume_def split: prod.splits)

lemma consume_invalid:
  "Decode s (Message.Value msg) = Inl err \<Longrightarrow>
   consume s msg w = commit s msg (record_call (LogInfo ''Ignoring message, invalid'') w)"
  by (simp add: consume_def)

lemma poll_once_message:
  "Poll (kafka s) (outside w) = (Some msg, x) \<Longrightarrow>
   poll_once s w = consume s msg (w\<lparr>calls := calls w @ [CallPoll], outside := x\<rparr>)"
  by (simp add: poll_once_def perform_def)

lemma fire_Iteration:
  "loop p = Looping \<Longrightarrow> \<not> panicked p \<Longrightarrow> fire s Iteration p = Some (iteration s p)"
  by (simp add: fire_def)

lemma iteration_open:
  "\<not> closeC p \<Longrightarrow> iteration s p = p\<lparr>world := poll_once s (world p)\<rparr>"
  by (simp add: iteration_def)

lemma world_commit:
  "commit s msg w =
     \<lparr>calls = calls w @ CallCommitMessage msg #
        (if fst (CommitMessage (kafka s) msg (outside w)) = None then []
         else [LogError ''commit failed'']),
      outside = snd (CommitMessage (kafka s) msg (outside w))\<rparr>"
  by (auto simp: commit_def perform_def record_call_def split: prod.splits option.splits)

lemma world_dispatch:
  "dispatch s e w =
     (if Type e = ''tasks.event.updated'' \<or> Type e = ''tasks.event.created'' then
        (fst (Index (task s) (evt.Value e) (outside w)) = None,
         \<lparr>calls = calls w @ [CallIndex (evt.Value e)],
          outside = snd (Index (task s) (evt.Value e) (outside w))\<rparr>)
      else if Type e = ''tasks.event.deleted'' then
        (fst (Delete (task s) (ID (evt.Value e)) (outside w)) = None,
         \<lparr>calls = calls w @ [CallDelete (ID (evt.Value e))],
          outside = snd (Delete (task s) (ID (evt.Value e)) (outside w))\<rparr>)
      else (False, w))"
  by (auto simp: dispatch_def perform_def split: prod.splits)

lemma world_receive:
  "receive r m v =
     (if Channel m = ''tasks.event.updated'' \<or> Channel m = ''tasks.event.created'' then
        (case Decode_Task r (Payload m) of
           Inl err \<Rightarrow>
             \<lparr>calls = calls v @ [LogInfo (''Received message: %s'' @ Channel m),
                LogInfo ''Ignoring message, invalid''], outside = outside v\<rparr>
         | Inr t \<Rightarrow>
             \<lparr>calls = calls v @ [LogInfo (''Received message: %s'' @ Channel m), CallIndex t] @
                (if fst (Index (task r) t (outside v)) = None then []
                 else [LogInfo ''Couldn't index task'']),
              outside = snd (Index (task r) t (outside v))\<rparr>)
      else if Channel m = ''tasks.event.deleted'' then
        (case Decode_string r (Payload m) of
           Inl err \<Rightarrow>
             \<lparr>calls = calls v @ [LogInfo (''Received message: %s'' @ Channel m),
                LogInfo ''Ignoring message, invalid''], outside = outside v\<rparr>
         | Inr i \<Rightarrow>
             \<lparr>calls = calls v @ [LogInfo (''Received message: %s'' @ Channel m), CallDelete i] @
                (if fst (Delete (task r) i (outside v)) = None then []
                 else [LogInfo ''Couldn't delete task'']),
              outside = snd (Delete (task r) i (outside v))\<rparr>)
      else \<lparr>calls = calls v @ [LogInfo (''Received message: %s'' @ Channel m)],
             outside = outside v\<rparr>)"
  by (auto simp: receive_def Let_def perform_def record_call_def
      split: prod.splits sum.splits option.splits)

section \<open>Evaluating the concrete programs\<close>

lemmas json_defs = json_evt_def json_Task_def json_string_def into_struct_def into_string_def
  into_int_def into_bool_def evt_field_def Task_field_def Dates_field_def store_def EqualFold_def
  lower_def zero_evt_def zero_Task_def envelope_def task_abc_def Task_abc_def

lemmas run_defs = kafka_indexer_def redis_indexer_def broker_Poll_def broker_CommitMessage_def
  on_search_def Upsert_def Remove_def empty_index_def broken_index_def message_def fresh_def
  start_def looping_def created_abc_def deleted_abc_def deleted_bare_def archived_abc_def
  not_json_def

lemma decode_created_abc:
  "Decode kafka_indexer (Message.Value created_abc)
     = Inr \<lparr>Type = ''tasks.event.created'', Value = Task_abc\<rparr>"
  by (simp add: run_defs json_defs)

lemma decode_archived_abc:
  "Decode kafka_indexer (Message.Value archived_abc)
     = Inr \<lparr>Type = ''tasks.event.archived'', Value = Task_abc\<rparr>"
  by (simp add: run_defs json_defs)

lemma looping_state:
  "loop (looping ms i) = Looping" "\<not> panicked (looping ms i)" "\<not> closeC (looping ms i)"
  "calls (world (looping ms i)) = []" "outside (world (looping ms i)) = \<lparr>queue = ms, search = i\<rparr>"
  by (simp_all add: looping_def start_def fresh_def)

lemma looping_Poll:
  "Poll (kafka kafka_indexer) (outside (world (looping (m # ms) i)))
     = (Some m, \<lparr>queue = ms, search = i\<rparr>)"
  by (simp add: looping_state kafka_indexer_def broker_Poll_def)

lemmas loop_defs = iteration_def poll_once_def perform_def consume_def dispatch_def commit_def
  record_call_def

lemmas ledger_defs = ledger_indexer_def ledger_Poll_def ledger_CommitMessage_def on_engine_def
  ledger_of_def ledger_looping_def redeliverable_def index_of_abc_def

lemma ledger_decodes:
  "Decode ledger_indexer (Message.Value created_abc)
     = Inr \<lparr>Type = ''tasks.event.created'', Value = Task_abc\<rparr>"
  "Decode ledger_indexer (Message.Value archived_abc)
     = Inr \<lparr>Type = ''tasks.event.archived'', Value = Task_abc\<rparr>"
  "Decode ledger_indexer (Message.Value not_json) = Inl SyntaxError"
  "Decode ledger_indexer = json_evt run_leaves"
  by (simp_all add: ledger_defs run_defs json_defs)

lemma ledger_looping_state:
  "loop (ledger_looping ms i r) = Looping" "\<not> panicked (ledger_looping ms i r)"
  "\<not> closeC (ledger_looping ms i r)"
  "world (ledger_looping ms i r) = \<lparr>calls = [], outside = ledger_of ms i r\<rparr>"
  by (simp_all add: ledger_looping_def start_def fresh_def)

lemma ledger_looping_Poll:
  "Poll (kafka ledger_indexer) (outside (world (ledger_looping (m # ms) i r)))
     = (Some m, \<lparr>pending = ms, delivered = [m], acknowledged = [], refusal = r, engine = i\<rparr>)"
  by (simp add: ledger_looping_state ledger_indexer_def ledger_Poll_def ledger_of_def)

section \<open>Type dispatch\<close>

text \<open>
  Claim C1. For every consumed message that decodes successfully, the loop dispatches
  on the type. In the poll-based program an \<open>evt.Type\<close> of \<open>tasks.event.updated\<close> or
  \<open>tasks.event.created\<close> calls \<open>s.task.Index\<close> with the decoded \<open>evt.Value\<close>, and
  \<open>tasks.event.deleted\<close> calls \<open>s.task.Delete\<close> with the decoded \<open>evt.Value.ID\<close>: the
  world after the message is the one that call leaves, followed by the commit when the
  call returned nil and by nothing when it returned an error. Any other type leaves
  the world as it was. In the subscribe-based program the type is the channel, the
  payload is decoded as a task or as a string according to it, and the world after the
  message is the one the call leaves, with the log lines; on any other channel only the
  receipt is logged.
\<close>

theorem dispatch_on_type:
  "(Decode s (Message.Value msg) = Inr e \<and>
      ((Type e = ''tasks.event.updated'' \<or> Type e = ''tasks.event.created'') \<and>
         c = CallIndex (evt.Value e) \<and> Index (task s) (evt.Value e) (outside w) = (res, x)
       \<or> Type e = ''tasks.event.deleted'' \<and>
         c = CallDelete (ID (evt.Value e)) \<and>
         Delete (task s) (ID (evt.Value e)) (outside w) = (res, x)) \<longrightarrow>
      consume s msg w =
        (if res = None then
           \<lparr>calls = calls w @ [c, LogInfo ''Consumed'', CallCommitMessage msg] @
              (if fst (CommitMessage (kafka s) msg x) = None then []
               else [LogError ''commit failed'']),
            outside = snd (CommitMessage (kafka s) msg x)\<rparr>
         else \<lparr>calls = calls w @ [c], outside = x\<rparr>))
   \<and> (Decode s (Message.Value msg) = Inr e \<and> Type e \<noteq> ''tasks.event.updated'' \<and>
        Type e \<noteq> ''tasks.event.created'' \<and> Type e \<noteq> ''tasks.event.deleted'' \<longrightarrow>
      consume s msg w = w)
   \<and> ((Channel m = ''tasks.event.updated'' \<or> Channel m = ''tasks.event.created'') \<and>
         Decode_Task r (Payload m) = Inr t \<and>
         d = CallIndex t \<and> Index (task r) t (outside v) = (out, y) \<and> l = ''Couldn't index task''
       \<or> Channel m = ''tasks.event.deleted'' \<and>
         Decode_string r (Payload m) = Inr i \<and>
         d = CallDelete i \<and> Delete (task r) i (outside v) = (out, y) \<and> l = ''Couldn't delete task''
       \<longrightarrow>
      receive r m v =
        \<lparr>calls = calls v @ [LogInfo (''Received message: %s'' @ Channel m), d] @
           (if out = None then [] else [LogInfo l]),
         outside = y\<rparr>)
   \<and> (Channel m \<noteq> ''tasks.event.updated'' \<and> Channel m \<noteq> ''tasks.event.created'' \<and>
        Channel m \<noteq> ''tasks.event.deleted'' \<longrightarrow>
      receive r m v =
        \<lparr>calls = calls v @ [LogInfo (''Received message: %s'' @ Channel m)],
         outside = outside v\<rparr>)"
proof (intro conjI impI)
  assume a: "Decode s (Message.Value msg) = Inr e \<and>
      ((Type e = ''tasks.event.updated'' \<or> Type e = ''tasks.event.created'') \<and>
         c = CallIndex (evt.Value e) \<and> Index (task s) (evt.Value e) (outside w) = (res, x)
       \<or> Type e = ''tasks.event.deleted'' \<and>
         c = CallDelete (ID (evt.Value e)) \<and>
         Delete (task s) (ID (evt.Value e)) (outside w) = (res, x))"
  then have "dispatch s e w = (res = None, \<lparr>calls = calls w @ [c], outside = x\<rparr>)"
    by (auto simp: world_dispatch)
  with a show "consume s msg w =
        (if res = None then
           \<lparr>calls = calls w @ [c, LogInfo ''Consumed'', CallCommitMessage msg] @
              (if fst (CommitMessage (kafka s) msg x) = None then []
               else [LogError ''commit failed'']),
            outside = snd (CommitMessage (kafka s) msg x)\<rparr>
         else \<lparr>calls = calls w @ [c], outside = x\<rparr>)"
    by (simp add: consume_decoded world_commit record_call_def)
next
  assume "Decode s (Message.Value msg) = Inr e \<and> Type e \<noteq> ''tasks.event.updated'' \<and>
        Type e \<noteq> ''tasks.event.created'' \<and> Type e \<noteq> ''tasks.event.deleted''"
  then show "consume s msg w = w"
    by (simp add: consume_decoded dispatch_unknown)
next
  assume "(Channel m = ''tasks.event.updated'' \<or> Channel m = ''tasks.event.created'') \<and>
         Decode_Task r (Payload m) = Inr t \<and>
         d = CallIndex t \<and> Index (task r) t (outside v) = (out, y) \<and> l = ''Couldn't index task''
       \<or> Channel m = ''tasks.event.deleted'' \<and>
         Decode_string r (Payload m) = Inr i \<and>
         d = CallDelete i \<and> Delete (task r) i (outside v) = (out, y) \<and> l = ''Couldn't delete task''"
  then show "receive r m v =
        \<lparr>calls = calls v @ [LogInfo (''Received message: %s'' @ Channel m), d] @
           (if out = None then [] else [LogInfo l]),
         outside = y\<rparr>"
    by (auto simp: world_receive)
next
  assume "Channel m \<noteq> ''tasks.event.updated'' \<and> Channel m \<noteq> ''tasks.event.created'' \<and>
        Channel m \<noteq> ''tasks.event.deleted''"
  then show "receive r m v =
        \<lparr>calls = calls v @ [LogInfo (''Received message: %s'' @ Channel m)],
         outside = outside v\<rparr>"
    by (simp add: world_receive)
qed


theorem dispatch_on_type_witness:
  "Decode ledger_indexer (Message.Value created_abc)
     = Inr \<lparr>Type = ''tasks.event.created'', Value = Task_abc\<rparr>
   \<and> consume ledger_indexer created_abc (fresh (ledger_of [] empty_index None))
     = \<lparr>calls = [CallIndex Task_abc, LogInfo ''Consumed'', CallCommitMessage created_abc],
        outside = \<lparr>pending = [], delivered = [], acknowledged = [created_abc], refusal = None,
          engine = index_of_abc\<rparr>\<rparr>
   \<and> consume ledger_indexer archived_abc (fresh (ledger_of [] empty_index None))
     = fresh (ledger_of [] empty_index None)
   \<and> receive redis_indexer
        \<lparr>Channel = ''tasks.event.deleted'', Payload = Some (JString ''abc'')\<rparr> (fresh index_of_abc)
     = \<lparr>calls = [LogInfo ''Received message: %stasks.event.deleted'', CallDelete ''abc''],
        outside = empty_index\<rparr>
   \<and> receive redis_indexer
        \<lparr>Channel = ''tasks.event.archived'', Payload = Some (JString ''abc'')\<rparr> (fresh index_of_abc)
     = \<lparr>calls = [LogInfo ''Received message: %stasks.event.archived''], outside = index_of_abc\<rparr>"
proof -
  let ?w = "fresh (ledger_of [] empty_index None)
    :: (json option Message, json option ledger) world"
  let ?x = "\<lparr>pending = [], delivered = [], acknowledged = [], refusal = None,
    engine = index_of_abc\<rparr> :: json option ledger"
  let ?del = "\<lparr>Channel = ''tasks.event.deleted'', Payload = Some (JString ''abc'')\<rparr>"
  let ?arc = "\<lparr>Channel = ''tasks.event.archived'', Payload = Some (JString ''abc'')\<rparr>"
  have i: "Index (task ledger_indexer) Task_abc (outside ?w) = (None, ?x)"
    by (simp add: ledger_defs run_defs Task_abc_def zero_Task_def)
  have k: "CommitMessage (kafka ledger_indexer) created_abc ?x
      = (None, ?x\<lparr>acknowledged := [created_abc]\<rparr>)"
    by (simp add: ledger_defs)
  have d: "Decode_string redis_indexer (Some (JString ''abc'')) = Inr ''abc''"
    by (simp add: run_defs json_defs)
  have r: "Delete (task redis_indexer) ''abc'' (outside (fresh index_of_abc :: (json option redis_Message, SearchIndex) world))
      = (None, empty_index)"
    by (simp add: ledger_defs run_defs)
  have f: "calls ?w = []" "outside ?w = ledger_of [] empty_index None"
    "calls (fresh index_of_abc) = []" "outside (fresh index_of_abc) = index_of_abc"
    by (simp_all add: fresh_def)
  from dispatch_on_type [where s = ledger_indexer and msg = created_abc
      and e = "\<lparr>Type = ''tasks.event.created'', Value = Task_abc\<rparr>" and w = ?w
      and c = "CallIndex Task_abc" and res = None and x = ?x
      and r = redis_indexer and m = ?del and v = "fresh index_of_abc" and i = "''abc''"
      and d = "CallDelete ''abc''" and out = None and y = empty_index
      and l = "''Couldn't delete task''"]
    dispatch_on_type [where s = ledger_indexer and msg = archived_abc
      and e = "\<lparr>Type = ''tasks.event.archived'', Value = Task_abc\<rparr>" and w = ?w
      and r = redis_indexer and m = ?arc and v = "fresh index_of_abc"]
  show ?thesis
    using ledger_decodes(1,2) i k d r by (simp add: f)
qed

section \<open>Acknowledgement in the poll-based loop\<close>

text \<open>
  Claim C2. When the loop polls a message that decodes and whose apply call (\<open>Index\<close>
  for an updated or created event, \<open>Delete\<close> for a deleted one) returns an error, the
  pass makes the poll and that apply call and nothing else: no commit of the message.
  The goroutine is still in its loop, so its next pass happens.
\<close>

theorem apply_failure_leaves_uncommitted:
  assumes "loop p = Looping" and "\<not> panicked p" and "\<not> closeC p"
    and "Poll (kafka s) (outside (world p)) = (Some msg, x)"
    and "Decode s (Message.Value msg) = Inr e"
    and "(Type e = ''tasks.event.updated'' \<or> Type e = ''tasks.event.created'') \<and>
           fst (Index (task s) (evt.Value e) x) = Some err \<and> c = CallIndex (evt.Value e)
         \<or> Type e = ''tasks.event.deleted'' \<and>
           fst (Delete (task s) (ID (evt.Value e)) x) = Some err \<and> c = CallDelete (ID (evt.Value e))"
  shows "fire s Iteration p = Some (iteration s p)
       \<and> calls (world (iteration s p)) = calls (world p) @ [CallPoll, c]
       \<and> committed (world (iteration s p)) = committed (world p)
       \<and> fire s Iteration (iteration s p) = Some (iteration s (iteration s p))"
proof -
  let ?w = "(world p)\<lparr>calls := calls (world p) @ [CallPoll], outside := x\<rparr>"
  have it: "iteration s p = p\<lparr>world := consume s msg ?w\<rparr>"
    using assms(3,4) by (simp add: iteration_open poll_once_message)
  have nok: "\<not> fst (dispatch s e ?w)"
    using assms(6) by (auto simp: ok_dispatch)
  have cs: "calls (consume s msg ?w) = calls (world p) @ [CallPoll, c]"
    using assms(5,6) nok by (auto simp: consume_decoded calls_dispatch)
  have "loop (iteration s p) = Looping" and "\<not> panicked (iteration s p)"
    using assms(1,2) it by simp_all
  then have "fire s Iteration (iteration s p) = Some (iteration s (iteration s p))"
    by (rule fire_Iteration)
  moreover have "committed (world (iteration s p)) = committed (world p)"
    using assms(6) by (auto simp: it committed_def cs)
  ultimately show ?thesis
    using assms(1,2) cs by (simp add: fire_Iteration it)
qed

theorem apply_failure_leaves_uncommitted_witness:
  "Decode kafka_indexer (Message.Value created_abc)
     = Inr \<lparr>Type = ''tasks.event.created'', Value = Task_abc\<rparr>
   \<and> fst (Index (task kafka_indexer) Task_abc \<lparr>queue = [], search = broken_index\<rparr>)
     = Some (Failure ''search engine unreachable'')
   \<and> calls (world (iteration kafka_indexer (looping [created_abc] broken_index)))
     = [CallPoll, CallIndex Task_abc]
   \<and> committed (world (iteration kafka_indexer (looping [created_abc] broken_index))) = []
   \<and> fire kafka_indexer Iteration (iteration kafka_indexer (looping [created_abc] broken_index))
     \<noteq> None"
proof -
  have h: "fst (Index (task kafka_indexer) Task_abc \<lparr>queue = [], search = broken_index\<rparr>)
      = Some (Failure ''search engine unreachable'')"
    by (simp add: kafka_indexer_def on_search_def Upsert_def broken_index_def)
  from apply_failure_leaves_uncommitted [where err = "Failure ''search engine unreachable''"
      and c = "CallIndex Task_abc", OF looping_state(1-3) looping_Poll decode_created_abc]
  show ?thesis
    using decode_created_abc h by (simp add: looping_state committed_def)
qed

text \<open>
  Claim C3, as amended. When the loop polls a message whose envelope fails to decode,
  the pass logs, calls \<open>CommitMessage\<close> on that message and makes no applier call; the
  world after the pass is the one \<open>CommitMessage\<close> leaves. When the broker refuses the
  commit the pass only adds the log line \<open>commit failed\<close>. Either way the goroutine
  stays in its loop, so that the next pass polls the next message.
\<close>

theorem invalid_message_committed:
  assumes "loop p = Looping" and "\<not> panicked p" and "\<not> closeC p"
    and "Poll (kafka s) (outside (world p)) = (Some msg, x)"
    and "Decode s (Message.Value msg) = Inl err"
    and "CommitMessage (kafka s) msg x = (res, y)"
  shows "fire s Iteration p = Some (iteration s p)
       \<and> world (iteration s p) =
           \<lparr>calls = calls (world p) @
              [CallPoll, LogInfo ''Ignoring message, invalid'', CallCommitMessage msg] @
              (if res = None then [] else [LogError ''commit failed'']),
            outside = y\<rparr>
       \<and> applied (world (iteration s p)) = applied (world p)
       \<and> loop (iteration s p) = Looping
       \<and> fire s Iteration (iteration s p) = Some (iteration s (iteration s p))"
proof -
  let ?w = "(world p)\<lparr>calls := calls (world p) @ [CallPoll], outside := x\<rparr>"
  have it: "iteration s p = p\<lparr>world := consume s msg ?w\<rparr>"
    using assms(3,4) by (simp add: iteration_open poll_once_message)
  have cs: "consume s msg ?w =
      \<lparr>calls = calls (world p) @
         [CallPoll, LogInfo ''Ignoring message, invalid'', CallCommitMessage msg] @
         (if res = None then [] else [LogError ''commit failed'']),
       outside = y\<rparr>"
    using assms(5,6) by (simp add: consume_invalid world_commit record_call_def)
  have l: "loop (iteration s p) = Looping" and "\<not> panicked (iteration s p)"
    using assms(1,2) it by simp_all
  then have "fire s Iteration (iteration s p) = Some (iteration s (iteration s p))"
    by (rule fire_Iteration)
  moreover have "applied (world (iteration s p)) = applied (world p)"
    by (simp add: it applied_def cs)
  ultimately show ?thesis
    using assms(1,2) l by (simp add: fire_Iteration it cs)
qed

lemma run_ledger_not_json_then_created:
  "world (iteration ledger_indexer (iteration ledger_indexer
      (ledger_looping [not_json, created_abc] empty_index None)))
   = \<lparr>calls = [CallPoll, LogInfo ''Ignoring message, invalid'', CallCommitMessage not_json,
        CallPoll, CallIndex Task_abc, LogInfo ''Consumed'', CallCommitMessage created_abc],
      outside = \<lparr>pending = [], delivered = [not_json, created_abc],
        acknowledged = [not_json, created_abc], refusal = None, engine = index_of_abc\<rparr>\<rparr>"
  by (simp add: loop_defs ledger_defs run_defs json_defs)

theorem invalid_message_committed_witness:
  "Decode ledger_indexer (Message.Value not_json) = Inl SyntaxError
   \<and> world (iteration ledger_indexer (ledger_looping [not_json, created_abc] empty_index None))
     = \<lparr>calls = [CallPoll, LogInfo ''Ignoring message, invalid'', CallCommitMessage not_json],
        outside = \<lparr>pending = [created_abc], delivered = [not_json],
          acknowledged = [not_json], refusal = None, engine = empty_index\<rparr>\<rparr>
   \<and> world (iteration ledger_indexer (iteration ledger_indexer
        (ledger_looping [not_json, created_abc] empty_index None)))
     = \<lparr>calls = [CallPoll, LogInfo ''Ignoring message, invalid'', CallCommitMessage not_json,
          CallPoll, CallIndex Task_abc, LogInfo ''Consumed'', CallCommitMessage created_abc],
        outside = \<lparr>pending = [], delivered = [not_json, created_abc],
          acknowledged = [not_json, created_abc], refusal = None, engine = index_of_abc\<rparr>\<rparr>"
proof -
  let ?x = "\<lparr>pending = [created_abc], delivered = [not_json], acknowledged = [],
    refusal = None, engine = empty_index\<rparr> :: json option ledger"
  have k: "CommitMessage (kafka ledger_indexer) not_json ?x
      = (None, ?x\<lparr>acknowledged := [not_json]\<rparr>)"
    by (simp add: ledger_defs)
  from invalid_message_committed [OF ledger_looping_state(1-3) ledger_looping_Poll
      ledger_decodes(3) k]
  show ?thesis
    using ledger_decodes(3) run_ledger_not_json_then_created
    by (simp add: ledger_looping_state)
qed

text \<open>
  The claim as stated (the malformed message is acknowledged and never redelivered)
  fails when the broker refuses the commit: the loop logs the failure and goes on, and
  the message is left unacknowledged and redeliverable.
\<close>

theorem refused_commit_leaves_redeliverable:
  "\<not> not_json \<in> set (acknowledged (outside (world (iteration ledger_indexer
        (ledger_looping [not_json] empty_index (Some (Failure ''commit refused'')))))))
   \<and> redeliverable (outside (world (iteration ledger_indexer
        (ledger_looping [not_json] empty_index (Some (Failure ''commit refused''))))))
     = [not_json]
   \<and> calls (world (iteration ledger_indexer
        (ledger_looping [not_json] empty_index (Some (Failure ''commit refused'')))))
     = [CallPoll, LogInfo ''Ignoring message, invalid'', CallCommitMessage not_json,
        LogError ''commit failed'']"
  by (simp add: loop_defs ledger_defs run_defs json_defs)


text \<open>
  Claim C5, as amended. When the loop polls a message that decodes to a type other than
  the three recognised ones, the pass makes the poll and nothing else: no applier
  call, no log line, no error, and no commit either, so the message is left exactly as
  unacknowledged as after a failed apply. The goroutine stays in its loop.
\<close>

theorem unknown_type_ignored:
  assumes "loop p = Looping" and "\<not> panicked p" and "\<not> closeC p"
    and "Poll (kafka s) (outside (world p)) = (Some msg, x)"
    and "Decode s (Message.Value msg) = Inr e"
    and "Type e \<noteq> ''tasks.event.updated''" and "Type e \<noteq> ''tasks.event.created''"
    and "Type e \<noteq> ''tasks.event.deleted''"
  shows "fire s Iteration p = Some (iteration s p)
       \<and> world (iteration s p) = (world p)\<lparr>calls := calls (world p) @ [CallPoll], outside := x\<rparr>
       \<and> fire s Iteration (iteration s p) = Some (iteration s (iteration s p))"
proof -
  let ?w = "(world p)\<lparr>calls := calls (world p) @ [CallPoll], outside := x\<rparr>"
  have it: "iteration s p = p\<lparr>world := consume s msg ?w\<rparr>"
    using assms(3,4) by (simp add: iteration_open poll_once_message)
  have "consume s msg ?w = ?w"
    using assms(5-8) by (simp add: consume_decoded dispatch_unknown)
  then have w: "world (iteration s p) = ?w"
    by (simp add: it)
  have "loop (iteration s p) = Looping" and "\<not> panicked (iteration s p)"
    using assms(1,2) it by simp_all
  then have "fire s Iteration (iteration s p) = Some (iteration s (iteration s p))"
    by (rule fire_Iteration)
  then show ?thesis
    using assms(1,2) w by (simp add: fire_Iteration)
qed

theorem unknown_type_ignored_witness:
  "Decode kafka_indexer (Message.Value archived_abc)
     = Inr \<lparr>Type = ''tasks.event.archived'', Value = Task_abc\<rparr>
   \<and> world (iteration kafka_indexer (looping [archived_abc] empty_index))
     = \<lparr>calls = [CallPoll], outside = \<lparr>queue = [], search = empty_index\<rparr>\<rparr>
   \<and> fire kafka_indexer Iteration (iteration kafka_indexer (looping [archived_abc] empty_index))
     \<noteq> None"
proof -
  have w: "world (looping [archived_abc] empty_index)
      = \<lparr>calls = [], outside = \<lparr>queue = [archived_abc], search = empty_index\<rparr>\<rparr>"
    by (simp add: looping_def start_def fresh_def)
  from unknown_type_ignored [OF looping_state(1-3) looping_Poll decode_archived_abc]
  show ?thesis
    using decode_archived_abc by (simp add: w)
qed

text \<open>
  The claim as stated (the message of unknown type is treated as acknowledged) fails:
  an envelope of type \<open>tasks.event.archived\<close> is never committed.
\<close>

theorem unknown_type_not_committed:
  "\<not> CallCommitMessage archived_abc
       \<in> set (calls (world (iteration kafka_indexer (looping [archived_abc] empty_index))))"
  by (simp add: loop_defs run_defs json_defs)

section \<open>The index applier\<close>

text \<open>
  Claim C8. For every task \<open>T\<close>, \<open>Upsert\<close> of \<open>T\<close> after \<open>Upsert\<close> of \<open>T\<close> returns what the
  first returned and leaves the index as the first left it: the entry is overwritten,
  nothing accumulates.
\<close>

theorem Upsert_idempotent: "Upsert T (snd (Upsert T i)) = Upsert T i"
  by (simp add: Upsert_def split: option.splits)

section \<open>The subscribe-based loop\<close>

lemma committed_receive: "committed (receive r m w) = committed w"
  by (simp add: receive_def Let_def perform_def committed_def record_call_def
      split: prod.splits sum.splits option.splits)

lemma committed_range_ch: "committed (range_ch r ch w) = committed w"
  by (induction ch arbitrary: w) (simp_all add: committed_receive)

text \<open>
  Claim C9. In the subscribe-based program, when \<open>Index\<close> or \<open>Delete\<close> fails for a
  message, the whole effect of the message is the log line of its receipt, that one
  call and one more log line. The message is off the channel and the loop goes on with
  what the channel delivers next; neither here nor anywhere else does the loop
  acknowledge, commit or ask again, so nothing brings the event back.
\<close>

theorem redis_apply_failure_lost:
  assumes "(Channel m = ''tasks.event.updated'' \<or> Channel m = ''tasks.event.created'') \<and>
             Decode_Task r (Payload m) = Inr t \<and> Index (task r) t (outside w) = (Some err, x) \<and>
             c = CallIndex t \<and> l = ''Couldn't index task''
           \<or> Channel m = ''tasks.event.deleted'' \<and>
             Decode_string r (Payload m) = Inr i \<and> Delete (task r) i (outside w) = (Some err, x) \<and>
             c = CallDelete i \<and> l = ''Couldn't delete task''"
  shows "receive r m w =
           \<lparr>calls = calls w @ [LogInfo (''Received message: %s'' @ Channel m), c, LogInfo l],
            outside = x\<rparr>
       \<and> range_ch r (m # ch) w =
           range_ch r ch
             \<lparr>calls = calls w @ [LogInfo (''Received message: %s'' @ Channel m), c, LogInfo l],
              outside = x\<rparr>
       \<and> committed (range_ch r (m # ch) w) = committed w"
proof -
  have "receive r m w =
      \<lparr>calls = calls w @ [LogInfo (''Received message: %s'' @ Channel m), c, LogInfo l],
       outside = x\<rparr>"
    using assms by (auto simp: receive_def Let_def perform_def record_call_def)
  then show ?thesis
    using committed_range_ch [of r "m # ch" w] by simp
qed

theorem redis_apply_failure_lost_witness:
  "Decode_Task redis_indexer (Some task_abc) = Inr Task_abc
   \<and> Index (task redis_indexer) Task_abc broken_index
       = (Some (Failure ''search engine unreachable''), broken_index)
   \<and> range_ch redis_indexer
       [\<lparr>Channel = ''tasks.event.created'', Payload = Some task_abc\<rparr>,
        \<lparr>Channel = ''tasks.event.deleted'', Payload = Some (JString ''abc'')\<rparr>] (fresh broken_index)
     = \<lparr>calls = [LogInfo ''Received message: %stasks.event.created'', CallIndex Task_abc,
                 LogInfo ''Couldn't index task'',
                 LogInfo ''Received message: %stasks.event.deleted'', CallDelete ''abc'',
                 LogInfo ''Couldn't delete task''],
        outside = broken_index\<rparr>"
proof -
  let ?m = "\<lparr>Channel = ''tasks.event.created'', Payload = Some task_abc\<rparr>"
  let ?d = "\<lparr>Channel = ''tasks.event.deleted'', Payload = Some (JString ''abc'')\<rparr>"
  have d: "Decode_Task redis_indexer (Some task_abc) = Inr Task_abc"
    by (simp add: run_defs json_defs)
  have f: "Index (task redis_indexer) Task_abc broken_index
      = (Some (Failure ''search engine unreachable''), broken_index)"
    by (simp add: run_defs)
  have g: "Decode_string redis_indexer (Some (JString ''abc'')) = Inr ''abc''"
    by (simp add: run_defs json_defs)
  have h: "Delete (task redis_indexer) ''abc'' broken_index
      = (Some (Failure ''search engine unreachable''), broken_index)"
    by (simp add: run_defs)
  let ?w1 = "\<lparr>calls = [LogInfo ''Received message: %stasks.event.created'', CallIndex Task_abc,
       LogInfo ''Couldn't index task''], outside = broken_index\<rparr>
       :: (json option redis_Message, SearchIndex) world"
  have one: "range_ch redis_indexer [?m, ?d] (fresh broken_index) = range_ch redis_indexer [?d] ?w1"
    using redis_apply_failure_lost [where r = redis_indexer and m = ?m and t = Task_abc
        and w = "fresh broken_index" and x = broken_index and c = "CallIndex Task_abc"
        and l = "''Couldn't index task''" and err = "Failure ''search engine unreachable''"
        and ch = "[?d]"]
      d f by (simp add: fresh_def)
  have two: "receive redis_indexer ?d ?w1 =
      \<lparr>calls = calls ?w1 @ [LogInfo ''Received message: %stasks.event.deleted'', CallDelete ''abc'',
         LogInfo ''Couldn't delete task''], outside = broken_index\<rparr>"
    using g h by (simp add: receive_def Let_def perform_def record_call_def)
  show ?thesis
    using d f one two by simp
qed

section \<open>A deleted event, end to end\<close>

lemma decode_deleted_object:
  "json_evt lv (envelope ''tasks.event.deleted'' (JObject [(''ID'', JString i)]))
     = Inr \<lparr>Type = ''tasks.event.deleted'', Value = zero_Task\<lparr>ID := i\<rparr>\<rparr>"
  by (simp add: json_defs)

lemma decode_deleted_string:
  "json_evt lv (envelope ''tasks.event.deleted'' (JString i))
     = Inl (UnmarshalTypeError ''string'' ''internal.Task'')"
  by (simp add: json_defs)

text \<open>
  Claim C4, as amended. In the poll-based program, whose \<open>evt.Value\<close> is a \<open>Task\<close>, the
  envelope \<open>{"Type":"tasks.event.deleted","Value":{"ID":i}}\<close> calls \<open>s.task.Delete\<close>
  with \<open>i\<close>, once; when that call returns nil the loop logs and calls \<open>CommitMessage\<close>
  on the message (a refused commit is only logged), and when it returns an error
  nothing follows. The envelope \<open>{"Type":"tasks.event.deleted","Value":i}\<close>, with a
  bare string, does not decode: no applier call is made and \<open>CommitMessage\<close> is called
  on the message as on any invalid one. In the subscribe-based program the bare string
  \<open>i\<close> on the channel \<open>tasks.event.deleted\<close> calls \<open>s.task.Delete\<close> with \<open>i\<close>, once,
  and there is no commit.
\<close>

theorem deleted_event_removes:
  assumes "Decode s = json_evt lv"
  shows "(Message.Value msg = envelope ''tasks.event.deleted'' (JObject [(''ID'', JString i)]) \<and>
            Delete (task s) i (outside w) = (res, x) \<longrightarrow>
            consume s msg w =
              (if res = None then
                 \<lparr>calls = calls w @ [CallDelete i, LogInfo ''Consumed'', CallCommitMessage msg] @
                    (if fst (CommitMessage (kafka s) msg x) = None then []
                     else [LogError ''commit failed'']),
                  outside = snd (CommitMessage (kafka s) msg x)\<rparr>
               else \<lparr>calls = calls w @ [CallDelete i], outside = x\<rparr>))
       \<and> (Message.Value msg = envelope ''tasks.event.deleted'' (JString i) \<longrightarrow>
            consume s msg w =
              \<lparr>calls = calls w @ [LogInfo ''Ignoring message, invalid'', CallCommitMessage msg] @
                 (if fst (CommitMessage (kafka s) msg (outside w)) = None then []
                  else [LogError ''commit failed'']),
               outside = snd (CommitMessage (kafka s) msg (outside w))\<rparr>)
       \<and> (Decode_string r = json_string \<and> Channel m = ''tasks.event.deleted''
            \<and> Payload m = Some (JString i) \<and> Delete (task r) i (outside v) = (out, y) \<longrightarrow>
            receive r m v =
              \<lparr>calls = calls v @ [LogInfo (''Received message: %s'' @ Channel m), CallDelete i] @
                 (if out = None then [] else [LogInfo ''Couldn't delete task'']),
               outside = y\<rparr>)"
proof (intro conjI impI)
  assume a: "Message.Value msg = envelope ''tasks.event.deleted'' (JObject [(''ID'', JString i)]) \<and>
      Delete (task s) i (outside w) = (res, x)"
  let ?e = "\<lparr>Type = ''tasks.event.deleted'', Value = zero_Task\<lparr>ID := i\<rparr>\<rparr>"
  have d: "Decode s (Message.Value msg) = Inr ?e"
    using assms a by (simp add: decode_deleted_object)
  have "dispatch s ?e w = (res = None, \<lparr>calls = calls w @ [CallDelete i], outside = x\<rparr>)"
    using a by (simp add: world_dispatch)
  then show "consume s msg w =
      (if res = None then
         \<lparr>calls = calls w @ [CallDelete i, LogInfo ''Consumed'', CallCommitMessage msg] @
            (if fst (CommitMessage (kafka s) msg x) = None then []
             else [LogError ''commit failed'']),
          outside = snd (CommitMessage (kafka s) msg x)\<rparr>
       else \<lparr>calls = calls w @ [CallDelete i], outside = x\<rparr>)"
    using d by (simp add: consume_decoded world_commit record_call_def)
next
  assume v: "Message.Value msg = envelope ''tasks.event.deleted'' (JString i)"
  have d: "Decode s (Message.Value msg) = Inl (UnmarshalTypeError ''string'' ''internal.Task'')"
    using assms v by (simp add: decode_deleted_string)
  show "consume s msg w =
      \<lparr>calls = calls w @ [LogInfo ''Ignoring message, invalid'', CallCommitMessage msg] @
         (if fst (CommitMessage (kafka s) msg (outside w)) = None then []
          else [LogError ''commit failed'']),
       outside = snd (CommitMessage (kafka s) msg (outside w))\<rparr>"
    using d by (simp add: consume_invalid world_commit record_call_def)
next
  assume a: "Decode_string r = json_string \<and> Channel m = ''tasks.event.deleted''
      \<and> Payload m = Some (JString i) \<and> Delete (task r) i (outside v) = (out, y)"
  then have "Decode_string r (Payload m) = Inr i"
    by (simp add: json_string_def into_string_def)
  then show "receive r m v =
      \<lparr>calls = calls v @ [LogInfo (''Received message: %s'' @ Channel m), CallDelete i] @
         (if out = None then [] else [LogInfo ''Couldn't delete task'']),
       outside = y\<rparr>"
    using a by (simp add: world_receive)
qed

theorem deleted_event_removes_witness:
  "consume ledger_indexer deleted_abc (fresh (ledger_of [] index_of_abc None))
     = \<lparr>calls = [CallDelete ''abc'', LogInfo ''Consumed'', CallCommitMessage deleted_abc],
        outside = \<lparr>pending = [], delivered = [], acknowledged = [deleted_abc], refusal = None,
          engine = empty_index\<rparr>\<rparr>
   \<and> consume ledger_indexer deleted_bare (fresh (ledger_of [] index_of_abc None))
     = \<lparr>calls = [LogInfo ''Ignoring message, invalid'', CallCommitMessage deleted_bare],
        outside = \<lparr>pending = [], delivered = [], acknowledged = [deleted_bare], refusal = None,
          engine = index_of_abc\<rparr>\<rparr>
   \<and> receive redis_indexer
        \<lparr>Channel = ''tasks.event.deleted'', Payload = Some (JString ''abc'')\<rparr> (fresh index_of_abc)
     = \<lparr>calls = [LogInfo ''Received message: %stasks.event.deleted'', CallDelete ''abc''],
        outside = empty_index\<rparr>"
proof -
  let ?w = "fresh (ledger_of [] index_of_abc None)
    :: (json option Message, json option ledger) world"
  let ?x = "\<lparr>pending = [], delivered = [], acknowledged = [], refusal = None,
    engine = empty_index\<rparr> :: json option ledger"
  let ?m = "\<lparr>Channel = ''tasks.event.deleted'', Payload = Some (JString ''abc'')\<rparr>"
  let ?v = "fresh index_of_abc :: (json option redis_Message, SearchIndex) world"
  have k: "Decode ledger_indexer = json_evt run_leaves"
    and r: "Decode_string redis_indexer = json_string"
    by (simp_all add: ledger_defs run_defs)
  have d: "Delete (task ledger_indexer) ''abc'' (outside ?w) = (None, ?x)"
    by (simp add: ledger_defs run_defs)
  have c1: "CommitMessage (kafka ledger_indexer) deleted_abc ?x
      = (None, ?x\<lparr>acknowledged := [deleted_abc]\<rparr>)"
    by (simp add: ledger_defs)
  have c2: "CommitMessage (kafka ledger_indexer) deleted_bare (outside ?w)
      = (None, (outside ?w)\<lparr>acknowledged := [deleted_bare]\<rparr>)"
    by (simp add: ledger_defs fresh_def)
  have e: "Delete (task redis_indexer) ''abc'' (outside ?v) = (None, empty_index)"
    by (simp add: ledger_defs run_defs)
  from deleted_event_removes [OF k, where msg = deleted_abc and i = "''abc''" and w = ?w
      and res = None and x = ?x and r = redis_indexer and m = ?m and v = ?v
      and out = None and y = empty_index]
    deleted_event_removes [OF k, where msg = deleted_bare and i = "''abc''" and w = ?w
      and r = redis_indexer and m = ?m and v = ?v]
  show ?thesis
    using r d c1 c2 e
    by (simp add: deleted_abc_def deleted_bare_def message_def fresh_def ledger_of_def)
qed

text \<open>
  The claim as stated fails in the poll-based program: after the loop has taken
  \<open>{"Type":"tasks.event.deleted","Value":"abc"}\<close>, \<open>Delete\<close> of \<open>abc\<close> has not been
  called and the index still holds the task.
\<close>

theorem deleted_bare_string_not_removed:
  "\<not> CallDelete ''abc'' \<in> set (calls (world (iteration ledger_indexer
        (ledger_looping [deleted_bare] index_of_abc None))))
   \<and> documents (engine (outside (world (iteration ledger_indexer
        (ledger_looping [deleted_bare] index_of_abc None))))) ''abc'' = Some Task_abc"
  by (simp add: loop_defs ledger_defs run_defs json_defs)

section \<open>Shutdown of the poll-based indexer\<close>

lemma exec_append:
  "exec s (es @ es') p = (case exec s es p of None \<Rightarrow> None | Some q \<Rightarrow> exec s es' q)"
  by (induction es arbitrary: p) (simp_all split: option.splits)

lemmas exec_defs = fire_def Shutdown_close_def Shutdown_select_def Let_def

lemma exec_then:
  "exec s es p = Some q \<Longrightarrow> exec s (es @ [e]) p = fire s e q"
  by (simp add: exec_append split: option.splits)

lemma fire_Finished:
  assumes "fire s e p = Some q" and "loop p = Finished"
  shows "loop q = Finished \<and> applied (world q) = applied (world p)
       \<and> polled (world q) = polled (world p)"
proof (cases e)
  case Shutdown
  with assms show ?thesis
    by (auto simp: fire_def Shutdown_close_def Let_def applied_def polled_def record_call_def
        split: if_splits)
next
  case (Select b)
  with assms show ?thesis
    by (auto simp: fire_def split: if_splits option.splits)
qed (use assms in \<open>auto simp: fire_def split: if_splits\<close>)

lemma exec_Finished:
  "exec s es p = Some q \<Longrightarrow> loop p = Finished \<Longrightarrow>
   loop q = Finished \<and> applied (world q) = applied (world p) \<and> polled (world q) = polled (world p)"
proof (induction es arbitrary: p)
  case Nil
  then show ?case by simp
next
  case (Cons e es)
  then obtain p' where f: "fire s e p = Some p'" and x: "exec s es p' = Some q"
    by (auto split: option.splits)
  from fire_Finished [OF f Cons.prems(2)] Cons.IH [OF x] show ?case
    by simp
qed

lemma fire_returned_nil:
  assumes "fire s e p = Some q" and "shutdown p = Returned None \<longrightarrow> loop p = Finished"
  shows "shutdown q = Returned None \<longrightarrow> loop q = Finished"
proof (cases e)
  case (Select b)
  with assms show ?thesis
    by (cases b) (auto simp: fire_def Shutdown_select_def split: if_splits option.splits)
qed (use assms in \<open>auto simp: fire_def iteration_def Shutdown_close_def Let_def split: if_splits\<close>)

lemma exec_returned_nil:
  "exec s es p = Some q \<Longrightarrow> (shutdown p = Returned None \<longrightarrow> loop p = Finished) \<Longrightarrow>
   (shutdown q = Returned None \<longrightarrow> loop q = Finished)"
proof (induction es arbitrary: p)
  case Nil
  then show ?case by simp
next
  case (Cons e es)
  then obtain p' where f: "fire s e p = Some p'" and x: "exec s es p' = Some q"
    by (auto split: option.splits)
  from Cons.IH [OF x fire_returned_nil [OF f Cons.prems(2)]] show ?case .
qed

text \<open>
  Claim C6. In every interleaving that starts with nothing called, once \<open>Shutdown\<close> has
  returned nil the goroutine has completed its send on \<open>doneC\<close> and is past its loop,
  and whatever happens afterwards adds no applier call (\<open>Index\<close>, \<open>Delete\<close>) and no
  \<open>Poll\<close>, whatever is still waiting at the broker. Before that, the pass of the loop
  that finds \<open>closeC\<close> closed makes no call on the broker or the index: it leaves the
  loop and goes to send on \<open>doneC\<close>.
\<close>

theorem no_apply_after_Shutdown_returns_nil:
  assumes "exec s es (start w) = Some p" and "shutdown p = Returned None"
    and "exec s es' p = Some q"
  shows "loop p = Finished \<and> loop q = Finished
       \<and> applied (world q) = applied (world p) \<and> polled (world q) = polled (world p)
       \<and> (closeC r \<and> loop r = Looping \<and> \<not> panicked r \<longrightarrow>
            fire s Iteration r = Some (iteration s r) \<and> loop (iteration s r) = Sending
          \<and> applied (world (iteration s r)) = applied (world r)
          \<and> polled (world (iteration s r)) = polled (world r)
          \<and> committed (world (iteration s r)) = committed (world r))"
proof -
  have "shutdown (start w) = Returned None \<longrightarrow> loop (start w) = Finished"
    by (simp add: start_def)
  with assms(1) have "shutdown p = Returned None \<longrightarrow> loop p = Finished"
    by (rule exec_returned_nil)
  with assms(2) have "loop p = Finished"
    by simp
  with exec_Finished [OF assms(3)] show ?thesis
    by (simp add: fire_Iteration iteration_def applied_def polled_def committed_def
        record_call_def)
qed

lemma fire_ctx:
  assumes "fire s e p = Some q" and "ctx p = None \<or> ctx p = Some DeadlineExceeded"
  shows "ctx q = None \<or> ctx q = Some DeadlineExceeded"
  using assms
  by (cases e) (auto simp: fire_def iteration_def Shutdown_close_def Let_def
      split: if_splits option.splits)

lemma exec_ctx:
  "exec s es p = Some q \<Longrightarrow> ctx p = None \<or> ctx p = Some DeadlineExceeded \<Longrightarrow>
   ctx q = None \<or> ctx q = Some DeadlineExceeded"
proof (induction es arbitrary: p)
  case Nil
  then show ?case by simp
next
  case (Cons e es)
  then obtain p' where f: "fire s e p = Some p'" and x: "exec s es p' = Some q"
    by (auto split: option.splits)
  from Cons.IH [OF x fire_ctx [OF f Cons.prems(2)]] show ?case .
qed

text \<open>
  Claim C7. While \<open>Shutdown\<close> waits in its \<open>select\<close> (the same text in both programs,
  stated here on the poll-based process): when the deadline has passed and the goroutine is not sending on \<open>doneC\<close>, the only ready
  case is \<open>ctx.Done()\<close> and \<open>Shutdown\<close> returns the wrapped \<open>DeadlineExceeded\<close>; when
  the goroutine is sending and the deadline has not passed, the only ready case is
  \<open>doneC\<close> and \<open>Shutdown\<close> returns nil; with neither, \<open>Shutdown\<close> stays blocked.
\<close>

theorem Shutdown_select_outcome:
  assumes "exec s es (start w) = Some p" and "shutdown p = Waiting" and "\<not> panicked p"
  shows "(ctx p \<noteq> None \<and> loop p \<noteq> Sending \<longrightarrow>
            fire s (Select CtxDone) p =
              Some (p\<lparr>shutdown :=
                Returned (Some (WrapErrorf DeadlineExceeded ErrorCodeUnknown ''context.Done''))\<rparr>)
          \<and> fire s (Select DoneC) p = None)
       \<and> (ctx p = None \<and> loop p = Sending \<longrightarrow>
            fire s (Select DoneC) p = Some (p\<lparr>shutdown := Returned None, loop := Finished\<rparr>)
          \<and> fire s (Select CtxDone) p = None)
       \<and> (ctx p = None \<and> loop p \<noteq> Sending \<longrightarrow>
            fire s (Select CtxDone) p = None \<and> fire s (Select DoneC) p = None)"
proof -
  have "ctx (start w) = None \<or> ctx (start w) = Some DeadlineExceeded"
    by (simp add: start_def)
  with assms(1) have "ctx p = None \<or> ctx p = Some DeadlineExceeded"
    by (rule exec_ctx)
  with assms(2,3) show ?thesis
    by (auto simp: fire_def Shutdown_select_def)
qed

lemma fire_other:
  assumes "fire s e p = Some q" and "e \<noteq> Shutdown"
  shows "closeC q = closeC p \<and> panicked q = panicked p"
  using assms
  by (cases e) (auto simp: fire_def iteration_def split: if_splits option.splits)

lemma exec_other:
  "exec s es p = Some q \<Longrightarrow> Shutdown \<notin> set es \<Longrightarrow>
   closeC q = closeC p \<and> panicked q = panicked p"
proof (induction es arbitrary: p)
  case Nil
  then show ?case by simp
next
  case (Cons e es)
  then obtain p' where f: "fire s e p = Some p'" and x: "exec s es p' = Some q"
    by (auto split: option.splits)
  from Cons.prems(2) have "e \<noteq> Shutdown" and "Shutdown \<notin> set es"
    by auto
  with fire_other [OF f] Cons.IH [OF x] show ?case
    by simp
qed

text \<open>
  Claim C10. In every interleaving with exactly one call of \<open>Shutdown\<close> so far, the
  process has not panicked, \<open>closeC\<close> is closed, and a further call of \<open>Shutdown\<close> logs
  and panics in \<open>close(s.closeC)\<close>.
\<close>

theorem second_Shutdown_panics:
  assumes "exec s (es @ Shutdown # es') (start w) = Some p"
    and "Shutdown \<notin> set es" and "Shutdown \<notin> set es'"
  shows "\<not> panicked p \<and> closeC p
       \<and> fire s Shutdown p =
           Some (p\<lparr>world := record_call (LogInfo ''Shutting down server'') (world p),
                   panicked := True\<rparr>)"
proof -
  from assms(1) obtain p1 p2 where
    a: "exec s es (start w) = Some p1" and b: "fire s Shutdown p1 = Some p2"
    and c: "exec s es' p2 = Some p"
    by (auto simp: exec_append split: option.splits)
  from exec_other [OF a assms(2)] have "\<not> closeC p1" and "\<not> panicked p1"
    by (simp_all add: start_def)
  with b have "closeC p2" and "\<not> panicked p2"
    by (auto simp: fire_def Shutdown_close_def Let_def)
  with exec_other [OF c assms(3)] have "closeC p" and "\<not> panicked p"
    by simp_all
  then show ?thesis
    by (simp add: fire_def Shutdown_close_def Let_def)
qed



theorem no_apply_after_Shutdown_returns_nil_witness:
  "map_option shutdown
     (exec kafka_indexer [ListenAndServe, Iteration, Shutdown, Iteration, Select DoneC]
        (start (fresh \<lparr>queue = [created_abc, deleted_abc], search = empty_index\<rparr>)))
     = Some (Returned None)
   \<and> map_option (\<lambda>p. queue (outside (world p)))
     (exec kafka_indexer [ListenAndServe, Iteration, Shutdown, Iteration, Select DoneC]
        (start (fresh \<lparr>queue = [created_abc, deleted_abc], search = empty_index\<rparr>)))
     = Some [deleted_abc]
   \<and> map_option (\<lambda>p. applied (world p))
     (exec kafka_indexer
        ([ListenAndServe, Iteration, Shutdown, Iteration, Select DoneC] @ [Deadline])
        (start (fresh \<lparr>queue = [created_abc, deleted_abc], search = empty_index\<rparr>)))
     = Some [CallIndex Task_abc]
   \<and> map_option (\<lambda>p. polled (world p))
     (exec kafka_indexer
        ([ListenAndServe, Iteration, Shutdown, Iteration, Select DoneC] @ [Deadline])
        (start (fresh \<lparr>queue = [created_abc, deleted_abc], search = empty_index\<rparr>)))
     = Some [CallPoll]
   \<and> map_option loop
     (exec kafka_indexer [Iteration]
        ((looping [created_abc, deleted_abc] empty_index)\<lparr>closeC := True\<rparr>))
     = Some Sending
   \<and> map_option (\<lambda>p. polled (world p))
     (exec kafka_indexer [Iteration]
        ((looping [created_abc, deleted_abc] empty_index)\<lparr>closeC := True\<rparr>))
     = Some []"
proof -
  let ?es = "[ListenAndServe, Iteration, Shutdown, Iteration, Select DoneC]"
  let ?r = "(looping [created_abc, deleted_abc] empty_index)\<lparr>closeC := True\<rparr>"
  have c: "closeC ?r \<and> loop ?r = Looping \<and> \<not> panicked ?r" "polled (world ?r) = []"
    by (simp_all add: looping_state polled_def)
  let ?w = "fresh \<lparr>queue = [created_abc, deleted_abc], search = empty_index\<rparr>
    :: (json option Message, json option broker) world"
  define P where "P = the (exec kafka_indexer ?es (start ?w))"
  have e: "exec kafka_indexer ?es (start ?w) = Some P"
    unfolding P_def by (simp add: exec_defs loop_defs run_defs json_defs)
  have s: "shutdown P = Returned None" and q: "queue (outside (world P)) = [deleted_abc]"
    and a: "applied (world P) = [CallIndex Task_abc]" and b: "polled (world P) = [CallPoll]"
    and n: "\<not> panicked P"
    unfolding P_def
    by (simp_all add: exec_defs loop_defs run_defs json_defs applied_def polled_def)
  have x: "exec kafka_indexer [Deadline] P = Some (P\<lparr>ctx := Some DeadlineExceeded\<rparr>)
      \<or> exec kafka_indexer [Deadline] P = Some P"
    using n by (simp add: fire_def)
  have y: "exec kafka_indexer (?es @ [Deadline]) (start ?w) = exec kafka_indexer [Deadline] P"
    using exec_then [OF e, of Deadline] by (simp split: option.splits)
  from x show ?thesis
  proof
    assume d: "exec kafka_indexer [Deadline] P = Some (P\<lparr>ctx := Some DeadlineExceeded\<rparr>)"
    from no_apply_after_Shutdown_returns_nil [OF e s d, of ?r] show ?thesis
      unfolding y e using s q a b c d by simp
  next
    assume d: "exec kafka_indexer [Deadline] P = Some P"
    from no_apply_after_Shutdown_returns_nil [OF e s d, of ?r] show ?thesis
      unfolding y e using s q a b c d by simp
  qed
qed

theorem Shutdown_select_outcome_witness:
  "map_option shutdown
     (exec kafka_indexer ([ListenAndServe, Shutdown, Deadline] @ [Select CtxDone])
        (start (fresh \<lparr>queue = [created_abc], search = empty_index\<rparr>)))
     = Some (Returned (Some (WrapErrorf DeadlineExceeded ErrorCodeUnknown ''context.Done'')))
   \<and> exec kafka_indexer ([ListenAndServe, Shutdown, Deadline] @ [Select DoneC])
        (start (fresh \<lparr>queue = [created_abc], search = empty_index\<rparr>)) = None
   \<and> map_option shutdown
     (exec kafka_indexer ([ListenAndServe, Shutdown, Iteration] @ [Select DoneC])
        (start (fresh \<lparr>queue = [created_abc], search = empty_index\<rparr>)))
     = Some (Returned None)
   \<and> exec kafka_indexer ([ListenAndServe, Shutdown, Iteration] @ [Select CtxDone])
        (start (fresh \<lparr>queue = [created_abc], search = empty_index\<rparr>)) = None"
proof -
  let ?w = "fresh \<lparr>queue = [created_abc], search = empty_index\<rparr>
    :: (json option Message, json option broker) world"
  define A where "A = the (exec kafka_indexer [ListenAndServe, Shutdown, Deadline] (start ?w))"
  define B where "B = the (exec kafka_indexer [ListenAndServe, Shutdown, Iteration] (start ?w))"
  have ea: "exec kafka_indexer [ListenAndServe, Shutdown, Deadline] (start ?w) = Some A"
    unfolding A_def by (simp add: exec_defs run_defs)
  have eb: "exec kafka_indexer [ListenAndServe, Shutdown, Iteration] (start ?w) = Some B"
    unfolding B_def by (simp add: exec_defs iteration_def run_defs)
  have a: "shutdown A = Waiting" "\<not> panicked A" "ctx A \<noteq> None" "loop A \<noteq> Sending"
    unfolding A_def by (simp_all add: exec_defs run_defs)
  have b: "shutdown B = Waiting" "\<not> panicked B" "ctx B = None" "loop B = Sending"
    unfolding B_def by (simp_all add: exec_defs iteration_def run_defs)
  from Shutdown_select_outcome [OF ea a(1,2)] Shutdown_select_outcome [OF eb b(1,2)]
  show ?thesis
    unfolding exec_then [OF ea] exec_then [OF eb] using a b by simp
qed

theorem second_Shutdown_panics_witness:
  "map_option panicked
     (exec kafka_indexer ([ListenAndServe] @ Shutdown # [Iteration, Select DoneC])
        (start (fresh \<lparr>queue = [created_abc], search = empty_index\<rparr>)))
     = Some False
   \<and> map_option shutdown
     (exec kafka_indexer ([ListenAndServe] @ Shutdown # [Iteration, Select DoneC])
        (start (fresh \<lparr>queue = [created_abc], search = empty_index\<rparr>)))
     = Some (Returned None)
   \<and> map_option panicked
     (exec kafka_indexer (([ListenAndServe] @ Shutdown # [Iteration, Select DoneC]) @ [Shutdown])
        (start (fresh \<lparr>queue = [created_abc], search = empty_index\<rparr>)))
     = Some True"
proof -
  let ?w = "fresh \<lparr>queue = [created_abc], search = empty_index\<rparr>
    :: (json option Message, json option broker) world"
  let ?es = "[ListenAndServe] @ Shutdown # [Iteration, Select DoneC]"
  define P where "P = the (exec kafka_indexer ?es (start ?w))"
  have e: "exec kafka_indexer ?es (start ?w) = Some P"
    unfolding P_def by (simp add: exec_defs iteration_def run_defs)
  have r: "shutdown P = Returned None"
    unfolding P_def by (simp add: exec_defs iteration_def run_defs)
  have h: "Shutdown \<notin> set [ListenAndServe]" "Shutdown \<notin> set [Iteration, Select DoneC]"
    by simp_all
  from second_Shutdown_panics [OF e h] show ?thesis
    unfolding exec_then [OF e] e using r by simp
qed

end
